theory Spec2Isabelle
  imports Complex_Main "HOL-Library.Word"
begin

section \<open>JavaScript strings\<close>

text \<open>
  A JavaScript string is a sequence of 16-bit code units. \<open>String.prototype.trim\<close>
  removes the code units of the ECMAScript productions WhiteSpace and LineTerminator
  from both ends; \<open>===\<close> on two strings is equality of the sequences.
\<close>

type_synonym jschar = "16 word"
type_synonym jsstring = "jschar list"

definition js :: "string \<Rightarrow> jsstring" where
  "js s = map (\<lambda>c. of_nat (of_char c)) s"

definition isWhiteSpace :: "jschar \<Rightarrow> bool" where
  "isWhiteSpace c \<longleftrightarrow>
     c = 0x0009 \<or> c = 0x000A \<or> c = 0x000B \<or> c = 0x000C \<or> c = 0x000D \<or> c = 0x0020 \<or>
     c = 0x00A0 \<or> c = 0x1680 \<or> (0x2000 \<le> c \<and> c \<le> 0x200A) \<or> c = 0x2028 \<or>
     c = 0x2029 \<or> c = 0x202F \<or> c = 0x205F \<or> c = 0x3000 \<or> c = 0xFEFF"

definition trim :: "jsstring \<Rightarrow> jsstring" where
  "trim s = rev (dropWhile isWhiteSpace (rev (dropWhile isWhiteSpace s)))"

text \<open>The fixed header label of both files: U+6848 U+4EF6 followed by \<open>ID\<close>.\<close>

definition label :: jsstring where
  "label = [0x6848, 0x4EF6, 0x0049, 0x0044]"

text \<open>\<open>String(n)\<close> for a non-negative integer \<open>n\<close> (an array length): its decimal digits.\<close>

fun decimal :: "nat \<Rightarrow> jsstring" where
  "decimal n =
     (if n < 10 then [0x0030 + of_nat n]
      else decimal (n div 10) @ [0x0030 + of_nat (n mod 10)])"

declare decimal.simps [simp del]

text \<open>
  What a \<open>throw\<close> carries, as far as the handlers look at it: an \<open>Error\<close> with its
  message, or some other value.
\<close>

datatype thrown = JsError jsstring | NonError

text \<open>
  Reading through a value that may be absent (\<open>None\<close> is \<open>undefined\<close> or \<open>null\<close>).
  \<open>v.m\<close> raises a \<open>TypeError\<close> when \<open>v\<close> is absent; \<open>v?.m\<close> is \<open>undefined\<close> then.
  An array read beyond the length is \<open>undefined\<close>. The only plain read of the handler
  is \<open>cell.trim()\<close>; the message of its \<open>TypeError\<close> is the engine's, here Node's for
  an \<open>undefined\<close> cell (for a \<open>null\<close> cell Node names \<open>null\<close> instead).
\<close>

definition absentMessage :: jsstring where
  "absentMessage = js ''Cannot read properties of undefined (reading '' @ [0x0027] @
     js ''trim'' @ [0x0027] @ js '')''"

definition deref :: "'a option \<Rightarrow> ('a \<Rightarrow> thrown + 'b) \<Rightarrow> thrown + 'b" where
  "deref v f = (case v of None \<Rightarrow> Inl (JsError absentMessage) | Some x \<Rightarrow> f x)"

definition chain :: "'a option \<Rightarrow> ('a \<Rightarrow> thrown + 'b option) \<Rightarrow> thrown + 'b option" where
  "chain v f = (case v of None \<Rightarrow> Inr None | Some x \<Rightarrow> f x)"

definition index :: "'a option list \<Rightarrow> nat \<Rightarrow> 'a option" where
  "index xs i = (if i < length xs then xs ! i else None)"

section \<open>The CSV extractor (\<open>extractProjectIDs\<close>)\<close>

text \<open>
  \<open>Papa.parse\<close> is the papaparse library; its outcome is the input of the model. With
  \<open>header: true\<close> it hands the \<open>complete\<close> callback one object per data row, keyed by
  the header's field names (\<open>results.meta.fields\<close>); an object is an association list in
  \<open>Object.keys\<close> order, and a data row shorter than the header has no entry for the
  cells it lacks. The callback reads \<open>results.data\<close> only. A file that cannot be read
  goes to the \<open>error\<close> callback with a message.
\<close>

type_synonym row_object = "(jsstring \<times> jsstring) list"

record papa_results =
  meta_fields :: "jsstring list"
  data :: "row_object list"

datatype papa_outcome = Complete papa_results | ParseError jsstring

definition emptyCsvMessage :: jsstring where
  "emptyCsvMessage = js ''CSV file is empty or could not be parsed.''"

definition noColumnMessage :: jsstring where
  "noColumnMessage = js ''CSV file does not contain a column named '' @ [0x0027] @ label @
     [0x0027] @ js ''. Please ensure the header is correct.''"

definition parseFailedMessage :: "jsstring \<Rightarrow> jsstring" where
  "parseFailedMessage m = js ''CSV parsing failed: '' @ m"

text \<open>\<open>headerKeys.find((key) => key.trim() === label)\<close>\<close>

definition findProjectIDKey :: "jsstring list \<Rightarrow> jsstring option" where
  "findProjectIDKey headerKeys = find (\<lambda>key. trim key = label) headerKeys"

text \<open>\<open>row[projectIDKey] ? String(row[projectIDKey]).trim() : ""\<close>\<close>

definition cellOfRow :: "jsstring \<Rightarrow> row_object \<Rightarrow> jsstring" where
  "cellOfRow projectIDKey row =
     (case map_of row projectIDKey of
        None \<Rightarrow> []
      | Some v \<Rightarrow> if v = [] then [] else trim v)"

text \<open>The promise: \<open>Inl\<close> is \<open>reject(new Error(message))\<close>, \<open>Inr\<close> is \<open>resolve\<close>.\<close>

definition extractProjectIDs :: "papa_outcome \<Rightarrow> jsstring + jsstring list" where
  "extractProjectIDs outcome =
     (case outcome of
        ParseError m \<Rightarrow> Inl (parseFailedMessage m)
      | Complete results \<Rightarrow>
          (case data results of
             [] \<Rightarrow> Inl emptyCsvMessage
           | first # rest \<Rightarrow>
               (case findProjectIDKey (map fst first) of
                  None \<Rightarrow> Inl noColumnMessage
                | Some projectIDKey \<Rightarrow>
                    if projectIDKey = [] then Inl noColumnMessage
                    else Inr (filter (\<lambda>id. id \<noteq> [])
                                (map (cellOfRow projectIDKey) (first # rest))))))"

section \<open>The sheet reconciler (\<open>POST\<close>)\<close>

subsection \<open>Data of the request and of the remote store\<close>

record payload =
  extractedProjectIDs :: "jsstring list"
  googleSpreadSheetID :: jsstring
  sheetName :: jsstring

text \<open>
  An entry of \<open>sheetMetadata.data.sheets\<close>. Every level is optional in the client's
  types, and the handler reads it through \<open>?.\<close>; \<open>None\<close> is \<open>undefined\<close>.
\<close>

record sheet_properties =
  title :: "jsstring option"
  sheetId :: "int option"

record sheet =
  properties :: "sheet_properties option"

text \<open>
  The \<open>values\<close> of a range read: rows of cells. A row entry or a cell may be absent
  (\<open>None\<close>); the cells that are present are the formatted strings of the store.
\<close>

type_synonym jscell = "jsstring option"
type_synonym jsrow = "jscell list option"

record color =
  red :: rat
  green :: rat
  blue :: rat

definition GRAY_COLOR :: color where
  "GRAY_COLOR = \<lparr>red = 3 / 10, green = 3 / 10, blue = 3 / 10\<rparr>"

text \<open>
  The \<open>GridRange\<close> of an instruction. The handler's object literal sets the sheet and
  the two row indices and leaves the column indices out: \<open>None\<close>.
\<close>

record grid_range =
  range_sheetId :: int
  startRowIndex :: nat
  endRowIndex :: nat
  startColumnIndex :: "nat option"
  endColumnIndex :: "nat option"

record repeat_cell =
  range :: grid_range
  backgroundColor :: color
  fieldMask :: jsstring

text \<open>The calls made on the remote store, in order; only \<open>BatchUpdate\<close> writes.\<close>

datatype call =
  SpreadsheetsGet jsstring
| ValuesGet jsstring jsstring
| BatchUpdate jsstring "repeat_cell list"

fun is_mutation :: "call \<Rightarrow> bool" where
  "is_mutation (BatchUpdate _ _) = True"
| "is_mutation _ = False"

definition mutations :: "call list \<Rightarrow> call list" where
  "mutations tr = filter is_mutation tr"

text \<open>
  The remote store as the handler sees it: what each call answers, or that it throws.
\<close>

record remote =
  spreadsheets_get :: "jsstring \<Rightarrow> thrown + sheet list option"
  values_get :: "jsstring \<Rightarrow> jsstring \<Rightarrow> thrown + jsrow list option"
  batchUpdate :: "jsstring \<Rightarrow> repeat_cell list \<Rightarrow> thrown + unit"

text \<open>\<open>NextResponse.json(body, {status})\<close>\<close>

datatype body = SuccessBody jsstring | ErrorBody jsstring

record response =
  body :: body
  status :: nat

subsection \<open>Step 1: the sheet\<close>

text \<open>\<open>s.properties?.title\<close> and \<open>targetSheet?.properties?.sheetId\<close>\<close>

definition titleOf :: "sheet \<Rightarrow> jsstring option" where
  "titleOf s = (case properties s of None \<Rightarrow> None | Some p \<Rightarrow> title p)"

definition sheetIdOf :: "sheet \<Rightarrow> int option" where
  "sheetIdOf s = (case properties s of None \<Rightarrow> None | Some p \<Rightarrow> sheetId p)"

text \<open>\<open>sheetMetadata.data.sheets?.find((s) => s.properties?.title === sheetName)\<close>\<close>

definition findTargetSheet :: "sheet list option \<Rightarrow> jsstring \<Rightarrow> sheet option" where
  "findTargetSheet sheets name =
     (case sheets of None \<Rightarrow> None | Some ss \<Rightarrow> find (\<lambda>s. titleOf s = Some name) ss)"

definition sheetNotFound :: "jsstring \<Rightarrow> response" where
  "sheetNotFound name =
     \<lparr>body = ErrorBody (js ''Spreadsheet structure error: Sheet named '' @ [0x0022] @ name @
        [0x0022] @ js '' could not be found.''), status = 400\<rparr>"

text \<open>
  The guard \<open>!sheetTitle || sheetId === undefined\<close>: \<open>Inl\<close> is the early return,
  \<open>Inr\<close> the title and identifier the later steps use.
\<close>

definition resolveSheet :: "sheet list option \<Rightarrow> jsstring \<Rightarrow> response + jsstring \<times> int" where
  "resolveSheet sheets name =
     (let targetSheet = findTargetSheet sheets name;
          sheetTitle = (case targetSheet of None \<Rightarrow> None | Some s \<Rightarrow> titleOf s);
          sheetId = (case targetSheet of None \<Rightarrow> None | Some s \<Rightarrow> sheetIdOf s)
      in case (sheetTitle, sheetId) of
           (Some t, Some i) \<Rightarrow> if t = [] then Inl (sheetNotFound name) else Inr (t, i)
         | _ \<Rightarrow> Inl (sheetNotFound name))"

subsection \<open>Step 2: the header column\<close>

text \<open>\<open>headerResponse.data.values?.[0] || []\<close>\<close>

definition headerRowOf :: "jsrow list option \<Rightarrow> jscell list" where
  "headerRowOf vals =
     (case vals of
        None \<Rightarrow> []
      | Some [] \<Rightarrow> []
      | Some (None # _) \<Rightarrow> []
      | Some (Some cells # _) \<Rightarrow> cells)"

text \<open>
  \<open>headerRow.findIndex((cell: string) => cell.trim() === label)\<close>, from index \<open>i\<close> on:
  \<open>Inr None\<close> is the result -1. The callback calls \<open>cell.trim()\<close> with no \<open>?.\<close>.
\<close>

fun findIndexFrom :: "nat \<Rightarrow> jscell list \<Rightarrow> thrown + nat option" where
  "findIndexFrom i [] = Inr None"
| "findIndexFrom i (cell # cells) =
     (case deref cell (\<lambda>c. Inr (trim c = label)) of
        Inl e \<Rightarrow> Inl e
      | Inr found \<Rightarrow> if found then Inr (Some i) else findIndexFrom (Suc i) cells)"

definition columnNotFound :: response where
  "columnNotFound =
     \<lparr>body = ErrorBody (js ''The column '' @ [0x0027] @ label @ [0x0027] @
        js '' was not found in the first row of the sheet.''), status = 400\<rparr>"

subsection \<open>Step 3: the column's address\<close>

text \<open>
  \<open>String.fromCharCode("A".charCodeAt(0) + projectIDColumnIndex)\<close>: one code unit, the
  sum reduced modulo \<open>2 ^ 16\<close>.
\<close>

definition projectIDColumnLetter :: "nat \<Rightarrow> jsstring" where
  "projectIDColumnLetter projectIDColumnIndex = [0x0041 + of_nat projectIDColumnIndex]"

definition headerRange :: "jsstring \<Rightarrow> jsstring" where
  "headerRange sheetTitle = sheetTitle @ js ''!1:1''"

definition projectIDRange :: "jsstring \<Rightarrow> nat \<Rightarrow> jsstring" where
  "projectIDRange sheetTitle projectIDColumnIndex =
     sheetTitle @ js ''!'' @ projectIDColumnLetter projectIDColumnIndex @ js '':'' @
     projectIDColumnLetter projectIDColumnIndex"

subsection \<open>Step 4: matching\<close>

text \<open>\<open>columnResponse.data.values || []\<close>\<close>

definition projectIDColumnOf :: "jsrow list option \<Rightarrow> jsrow list" where
  "projectIDColumnOf vals = (case vals of None \<Rightarrow> [] | Some rows \<Rightarrow> rows)"

text \<open>\<open>projectIDColumn[i]?.[0]?.trim()\<close>\<close>

definition rowValue :: "jsrow list \<Rightarrow> nat \<Rightarrow> thrown + jsstring option" where
  "rowValue projectIDColumn i =
     chain (index projectIDColumn i) (\<lambda>row.
       chain (index row 0) (\<lambda>cell. Inr (Some (trim cell))))"

text \<open>\<open>rowValue && extractedProjectIDs.includes(rowValue)\<close>\<close>

definition isMatch :: "jsstring list \<Rightarrow> jsstring option \<Rightarrow> bool" where
  "isMatch ids v = (case v of None \<Rightarrow> False | Some s \<Rightarrow> s \<noteq> [] \<and> s \<in> set ids)"

definition repeatCell :: "int \<Rightarrow> nat \<Rightarrow> repeat_cell" where
  "repeatCell sid rowNumber =
     \<lparr>range = \<lparr>range_sheetId = sid, startRowIndex = rowNumber - 1, endRowIndex = rowNumber,
                startColumnIndex = None, endColumnIndex = None\<rparr>,
      backgroundColor = GRAY_COLOR,
      fieldMask = js ''userEnteredFormat.backgroundColor''\<rparr>"

text \<open>The \<open>for\<close> loop from index \<open>i\<close> on, with the requests pushed so far.\<close>

function matchLoop ::
  "int \<Rightarrow> jsstring list \<Rightarrow> jsrow list \<Rightarrow> nat \<Rightarrow> repeat_cell list \<Rightarrow> thrown + repeat_cell list"
  where
  "matchLoop sid ids projectIDColumn i updateRequests =
     (if i < length projectIDColumn then
        (case rowValue projectIDColumn i of
           Inl e \<Rightarrow> Inl e
         | Inr v \<Rightarrow>
             matchLoop sid ids projectIDColumn (Suc i)
               (if isMatch ids v
                then updateRequests @ [repeatCell sid (i + 1)]
                else updateRequests))
      else Inr updateRequests)"
  by pat_completeness auto
termination
  by (relation "measure (\<lambda>(sid, ids, col, i, acc). length col - i)") auto

declare matchLoop.simps [simp del]

definition buildUpdateRequests ::
  "int \<Rightarrow> jsstring list \<Rightarrow> jsrow list \<Rightarrow> thrown + repeat_cell list" where
  "buildUpdateRequests sid ids projectIDColumn = matchLoop sid ids projectIDColumn 1 []"

subsection \<open>Step 5 and the handler\<close>

definition updatedMessage :: "nat \<Rightarrow> jsstring \<Rightarrow> jsstring" where
  "updatedMessage n name =
     decimal n @ js '' rows were successfully updated in the Google Sheet: '' @ name @ js ''.''"

definition updated :: "nat \<Rightarrow> jsstring \<Rightarrow> response" where
  "updated n name = \<lparr>body = SuccessBody (updatedMessage n name), status = 200\<rparr>"

text \<open>The \<open>catch\<close> block.\<close>

definition apiError :: "thrown \<Rightarrow> response" where
  "apiError e =
     \<lparr>body = ErrorBody (js ''API Error: '' @
        (case e of JsError m \<Rightarrow> m | NonError \<Rightarrow> js ''An unknown error occurred.'')),
      status = 500\<rparr>"

text \<open>
  Steps 1 to 4, everything before the submission: the calls made, and either what was
  thrown, or the early response, or the resolved sheet identifier with the requests.
\<close>

definition matching ::
  "remote \<Rightarrow> payload \<Rightarrow> call list \<times> (thrown + response + repeat_cell list)" where
  "matching R p =
     (let sid = googleSpreadSheetID p; name = sheetName p in
      case spreadsheets_get R sid of
        Inl e \<Rightarrow> ([SpreadsheetsGet sid], Inl e)
      | Inr sheets \<Rightarrow>
          (case resolveSheet sheets name of
             Inl r \<Rightarrow> ([SpreadsheetsGet sid], Inr (Inl r))
           | Inr (sheetTitle, sheetId') \<Rightarrow>
               (case values_get R sid (headerRange sheetTitle) of
                  Inl e \<Rightarrow> ([SpreadsheetsGet sid, ValuesGet sid (headerRange sheetTitle)], Inl e)
                | Inr headerValues \<Rightarrow>
                    (case findIndexFrom 0 (headerRowOf headerValues) of
                       Inl e \<Rightarrow>
                         ([SpreadsheetsGet sid, ValuesGet sid (headerRange sheetTitle)], Inl e)
                     | Inr None \<Rightarrow>
                         ([SpreadsheetsGet sid, ValuesGet sid (headerRange sheetTitle)],
                          Inr (Inl columnNotFound))
                     | Inr (Some projectIDColumnIndex) \<Rightarrow>
                         (case values_get R sid (projectIDRange sheetTitle projectIDColumnIndex) of
                            Inl e \<Rightarrow>
                              ([SpreadsheetsGet sid, ValuesGet sid (headerRange sheetTitle),
                                ValuesGet sid (projectIDRange sheetTitle projectIDColumnIndex)],
                               Inl e)
                          | Inr columnValues \<Rightarrow>
                              ([SpreadsheetsGet sid, ValuesGet sid (headerRange sheetTitle),
                                ValuesGet sid (projectIDRange sheetTitle projectIDColumnIndex)],
                               (case buildUpdateRequests sheetId' (extractedProjectIDs p)
                                       (projectIDColumnOf columnValues) of
                                  Inl e \<Rightarrow> Inl e
                                | Inr updateRequests \<Rightarrow> Inr (Inr updateRequests))))))))"

text \<open>The body of the \<open>try\<close> block: the matching, then the submission when there is any request.\<close>

definition handler :: "remote \<Rightarrow> payload \<Rightarrow> call list \<times> (thrown + response)" where
  "handler R p =
     (case matching R p of
        (tr, Inl e) \<Rightarrow> (tr, Inl e)
      | (tr, Inr (Inl r)) \<Rightarrow> (tr, Inr r)
      | (tr, Inr (Inr updateRequests)) \<Rightarrow>
          if length updateRequests > 0 then
            (case batchUpdate R (googleSpreadSheetID p) updateRequests of
               Inl e \<Rightarrow> (tr @ [BatchUpdate (googleSpreadSheetID p) updateRequests], Inl e)
             | Inr _ \<Rightarrow>
                 (tr @ [BatchUpdate (googleSpreadSheetID p) updateRequests],
                  Inr (updated (length updateRequests) (sheetName p))))
          else (tr, Inr (updated (length updateRequests) (sheetName p))))"

text \<open>
  The handler: \<open>request.json()\<close> gives the payload or throws; whatever is thrown inside
  \<open>try\<close> becomes the response of \<open>catch\<close>. The result is the response and the calls made.
  Logging and the construction of the client make no call on the store and are left out.
\<close>

definition POST :: "remote \<Rightarrow> thrown + payload \<Rightarrow> response \<times> call list" where
  "POST R request =
     (case request of
        Inl e \<Rightarrow> (apiError e, [])
      | Inr p \<Rightarrow>
          (case handler R p of
             (tr, Inl e) \<Rightarrow> (apiError e, tr)
           | (tr, Inr r) \<Rightarrow> (r, tr)))"

section \<open>Vocabulary of the specification\<close>

text \<open>
  The text of the identifier cell of sheet row \<open>r\<close> (rows count from 1, the header is
  row 1); a row with no cell there reads as the empty text.
\<close>

definition cellAt :: "jsrow list \<Rightarrow> nat \<Rightarrow> jsstring" where
  "cellAt V r =
     (case index V (r - 1) of
        Some (Some cell # _) \<Rightarrow> cell
      | _ \<Rightarrow> [])"

text \<open>A row entry with its absent identifier cell written out as the empty text.\<close>

definition fillAbsent :: "jsrow \<Rightarrow> jsrow" where
  "fillAbsent row =
     (case row of
        None \<Rightarrow> Some [Some []]
      | Some [] \<Rightarrow> Some [Some []]
      | Some (None # cells) \<Rightarrow> Some (Some [] # cells)
      | Some (Some cell # cells) \<Rightarrow> Some (Some cell # cells))"

text \<open>
  The letters of column \<open>n\<close> (counting from 1) in bijective base 26: \<open>A\<close> to \<open>Z\<close> for
  1 to 26, then \<open>AA\<close> for 27.
\<close>

function columnAddress :: "nat \<Rightarrow> jsstring" where
  "columnAddress n =
     (if n = 0 then []
      else columnAddress ((n - 1) div 26) @ [0x0041 + of_nat ((n - 1) mod 26)])"
  by pat_completeness auto
termination
  by (relation "measure id") auto

declare columnAddress.simps [simp del]

text \<open>A row entry that has no identifier cell.\<close>

definition cellAbsent :: "jsrow \<Rightarrow> bool" where
  "cellAbsent row =
     (case row of
        None \<Rightarrow> True
      | Some [] \<Rightarrow> True
      | Some (None # _) \<Rightarrow> True
      | Some (Some _ # _) \<Rightarrow> False)"

text \<open>
  The cell of a parsed CSV row under a header field; a row that lacks the cell
  contributes the empty value.
\<close>

definition columnCell :: "jsstring \<Rightarrow> row_object \<Rightarrow> jsstring" where
  "columnCell key row = (case map_of row key of None \<Rightarrow> [] | Some v \<Rightarrow> v)"

text \<open>The success message in the wording of the specification.\<close>

definition specMessage :: "nat \<Rightarrow> jsstring \<Rightarrow> jsstring" where
  "specMessage n name = decimal n @ js '' rows updated in sheet '' @ name"

definition isSuccess :: "response \<Rightarrow> bool" where
  "isSuccess r = (case body r of SuccessBody _ \<Rightarrow> True | ErrorBody _ \<Rightarrow> False)"

definition sheetEntries :: "sheet list option \<Rightarrow> sheet list" where
  "sheetEntries sheets = (case sheets of None \<Rightarrow> [] | Some ss \<Rightarrow> ss)"



text \<open>
  A store for concrete scenarios: it lists \<open>sheets\<close>, answers a range read from the
  table \<open>ranges\<close> (any other range is refused) and accepts every batch.
\<close>

definition readRange :: "(jsstring \<times> jsrow list) list \<Rightarrow> jsstring \<Rightarrow> thrown + jsrow list option" where
  "readRange ranges r =
     (case map_of ranges r of
        None \<Rightarrow> Inl (JsError (js ''Unable to parse range''))
      | Some v \<Rightarrow> Inr (Some v))"

definition tableStore :: "sheet list \<Rightarrow> (jsstring \<times> jsrow list) list \<Rightarrow> remote" where
  "tableStore sheets ranges =
     \<lparr>spreadsheets_get = (\<lambda>_. Inr (Some sheets)),
      values_get = (\<lambda>_. readRange ranges),
      batchUpdate = (\<lambda>_ _. Inr ())\<rparr>"

text \<open>
  The scenario of the specification: a document with one sheet \<open>S\<close> whose column B is
  headed by the label and reads XYZ, ABC, DEF, GHI below it; and the same document
  behind a store that refuses every batch.
\<close>

definition sheetS :: sheet where
  "sheetS = \<lparr>properties = Some \<lparr>title = Some (js ''S''), sheetId = Some 7\<rparr>\<rparr>"

definition columnA :: "jsrow list" where
  "columnA =
     [Some [Some label], Some [Some (js ''XYZ'')], Some [Some (js ''ABC'')],
      Some [Some (js ''DEF'')], Some [Some (js ''GHI'')]]"

definition storeA :: remote where
  "storeA =
     tableStore [sheetS]
       [(js ''S!1:1'', [Some [Some (js ''name''), Some label]]), (js ''S!B:B'', columnA)]"

definition refusingStoreA :: remote where
  "refusingStoreA = storeA\<lparr>batchUpdate := (\<lambda>_ _. Inl (JsError (js ''quota'')))\<rparr>"

definition payloadA :: "jsstring list \<Rightarrow> payload" where
  "payloadA ids =
     \<lparr>extractedProjectIDs = ids, googleSpreadSheetID = js ''doc'', sheetName = js ''S''\<rparr>"

section \<open>The matching loop\<close>

lemma trim_Nil: "trim [] = []"
  by (simp add: trim_def)

text \<open>The guarded read of the loop has a value for every column and every index.\<close>

lemma rowValue_Inr:
  "rowValue V j =
     Inr (case index V j of Some (Some cell # _) \<Rightarrow> Some (trim cell) | _ \<Rightarrow> None)"
  by (simp add: rowValue_def chain_def index_def split: option.splits list.splits)

lemma isMatch_rowValue:
  "rowValue V j = Inr v \<Longrightarrow>
     isMatch ids v \<longleftrightarrow> trim (cellAt V (Suc j)) \<noteq> [] \<and> trim (cellAt V (Suc j)) \<in> set ids"
  by (auto simp: rowValue_Inr isMatch_def cellAt_def trim_Nil split: option.splits list.splits)

text \<open>
  The loop started at index \<open>i\<close> appends, in row order, one request for each matching
  sheet row from \<open>i + 1\<close> to the length of the column.
\<close>

lemma matchLoop_eq:
  "matchLoop sid ids col i acc =
     Inr (acc @ map (repeatCell sid)
             (filter (\<lambda>r. trim (cellAt col r) \<noteq> [] \<and> trim (cellAt col r) \<in> set ids)
                [Suc i..<Suc (length col)]))"
proof (induction sid ids col i acc rule: matchLoop.induct)
  case (1 sid ids col i acc)
  show ?case
  proof (cases "i < length col")
    case True
    obtain v where v: "rowValue col i = Inr v"
      by (simp add: rowValue_Inr)
    from True have upt: "[Suc i..<Suc (length col)] = Suc i # [Suc (Suc i)..<Suc (length col)]"
      by (simp add: upt_conv_Cons del: upt_Suc)
    show ?thesis
      using True "1.IH" [OF True v] isMatch_rowValue [OF v, of ids]
      by (subst matchLoop.simps) (simp add: v upt del: upt_Suc)
  next
    case False
    then show ?thesis
      by (subst matchLoop.simps) simp
  qed
qed

lemma buildUpdateRequests_rows:
  "buildUpdateRequests sid ids V =
     Inr (map (repeatCell sid)
       (filter (\<lambda>r. trim (cellAt V r) \<noteq> [] \<and> trim (cellAt V r) \<in> set ids) [2..<Suc (length V)]))"
  by (simp add: buildUpdateRequests_def matchLoop_eq Suc_1 del: upt_Suc One_nat_def)

lemma marked_rows_count:
  "length (filter P [2..<Suc n]) = card {r. 2 \<le> r \<and> r \<le> n \<and> P r}"
proof -
  have "distinct (filter P [2..<Suc n])"
    by (rule distinct_filter) (rule distinct_upt)
  then have "length (filter P [2..<Suc n]) = card (set (filter P [2..<Suc n]))"
    by (simp only: distinct_card)
  also have "set (filter P [2..<Suc n]) = {r. 2 \<le> r \<and> r \<le> n \<and> P r}"
    by auto
  finally show ?thesis .
qed

lemma buildUpdateRequests_count:
  assumes "buildUpdateRequests sid S V = Inr reqs"
  shows "length reqs =
     card {r. 2 \<le> r \<and> r \<le> length V \<and> trim (cellAt V r) \<noteq> [] \<and> trim (cellAt V r) \<in> set S}"
proof -
  from assms have "reqs = map (repeatCell sid)
      (filter (\<lambda>r. trim (cellAt V r) \<noteq> [] \<and> trim (cellAt V r) \<in> set S) [2..<Suc (length V)])"
    by (simp only: buildUpdateRequests_rows sum.inject)
  then show ?thesis
    by (simp only: length_map marked_rows_count)
qed

text \<open>The list of identifiers matters through its set of members only.\<close>

lemma buildUpdateRequests_cong:
  "set ids1 = set ids2 \<Longrightarrow> buildUpdateRequests sid ids1 V = buildUpdateRequests sid ids2 V"
  by (simp only: buildUpdateRequests_rows)

lemma requests_sheetId:
  "buildUpdateRequests i ids V = Inr reqs \<Longrightarrow> q \<in> set reqs \<Longrightarrow> range_sheetId (range q) = i"
  by (auto simp: buildUpdateRequests_rows repeatCell_def)

lemma cellAt_fillAbsent: "cellAt (map fillAbsent V) r = cellAt V r"
  by (simp add: cellAt_def index_def fillAbsent_def split: option.splits list.splits)

lemma cellAt_absent: "i < length V \<Longrightarrow> cellAbsent (V ! i) \<Longrightarrow> cellAt V (Suc i) = []"
  by (simp add: cellAt_def index_def cellAbsent_def split: option.splits list.splits)

text \<open>
  C10. For every column read, sparse ones included, the scan returns a list of requests
  and raises nothing; writing the empty text into every row entry that is absent or has
  no first cell leaves the result as it is; and no request is for such a row.
\<close>

theorem buildUpdateRequests_total:
  "\<exists>reqs. buildUpdateRequests sid ids V = Inr reqs \<and>
      buildUpdateRequests sid ids (map fillAbsent V) = Inr reqs \<and>
      (\<forall>q\<in>set reqs. startRowIndex (range q) < length V \<and>
         \<not> cellAbsent (V ! startRowIndex (range q)))"
proof -
  let ?P = "\<lambda>V r. trim (cellAt V r) \<noteq> [] \<and> trim (cellAt V r) \<in> set ids"
  let ?reqs = "map (repeatCell sid) (filter (?P V) [2..<Suc (length V)])"
  have plain: "buildUpdateRequests sid ids V = Inr ?reqs"
    by (rule buildUpdateRequests_rows)
  have filled: "buildUpdateRequests sid ids (map fillAbsent V) = Inr ?reqs"
    by (simp only: buildUpdateRequests_rows cellAt_fillAbsent length_map)
  have present:
    "startRowIndex (range q) < length V \<and> \<not> cellAbsent (V ! startRowIndex (range q))"
    if "q \<in> set ?reqs" for q
  proof -
    from that obtain r where r: "q = repeatCell sid r" "2 \<le> r" "r \<le> length V" "?P V r"
      by auto
    then obtain i where i: "r = Suc i" "i < length V"
      by (cases r) auto
    have "\<not> cellAbsent (V ! i)"
      using cellAt_absent [OF i(2)] r(4) by (auto simp: i(1) trim_Nil)
    then show ?thesis
      using i by (simp add: r(1) repeatCell_def)
  qed
  from plain filled present show ?thesis by blast
qed

theorem buildUpdateRequests_total_witness:
  "buildUpdateRequests 0 [js ''ABC'']
     [Some [Some label], None, Some [], Some [None], Some [Some (js ''ABC'')]] =
     Inr [repeatCell 0 5]
   \<and> buildUpdateRequests 0 [js ''ABC'']
     [Some [Some label], Some [Some []], Some [Some []], Some [Some []],
      Some [Some (js ''ABC'')]] =
     Inr [repeatCell 0 5]"
proof -
  let ?V = "[Some [Some label], None, Some [], Some [None], Some [Some (js ''ABC'')]]"
  from buildUpdateRequests_total [of 0 "[js ''ABC'']" ?V]
  obtain reqs where reqs: "buildUpdateRequests 0 [js ''ABC''] ?V = Inr reqs"
    "buildUpdateRequests 0 [js ''ABC''] (map fillAbsent ?V) = Inr reqs"
    by blast
  have "buildUpdateRequests 0 [js ''ABC''] ?V = Inr [repeatCell 0 5]"
    by (simp add: buildUpdateRequests_rows cellAt_def index_def trim_def isWhiteSpace_def js_def
        label_def upt_rec)
  with reqs show ?thesis
    by (simp add: fillAbsent_def)
qed

section \<open>The column's address\<close>

lemma columnAddress_0: "columnAddress 0 = []"
  by (subst columnAddress.simps) simp

text \<open>For the first 26 columns the single letter is the address.\<close>

lemma projectIDColumnLetter_below_26:
  "i < 26 \<Longrightarrow> projectIDColumnLetter i = columnAddress (i + 1)"
  by (subst columnAddress.simps) (simp add: projectIDColumnLetter_def columnAddress_0)

text \<open>
  C3. At the zero-based index 26, the 27th column, the handler computes the single code
  unit after \<open>Z\<close>, an opening square bracket, where the address in bijective base 26 is
  \<open>AA\<close>; on a sheet titled \<open>S\<close> it reads the range \<open>S![:[\<close>.
\<close>

theorem projectIDColumnLetter_27th_column:
  "projectIDColumnLetter 26 = [0x005B] \<and> columnAddress (26 + 1) = js ''AA'' \<and>
   projectIDColumnLetter 26 \<noteq> columnAddress (26 + 1) \<and>
   projectIDRange (js ''S'') 26 = js ''S![:[''"
  by (simp add: projectIDColumnLetter_def projectIDRange_def columnAddress.simps js_def)

section \<open>The extractor\<close>

lemma cellOfRow_columnCell: "cellOfRow key row = trim (columnCell key row)"
  by (simp add: cellOfRow_def columnCell_def trim_Nil split: option.splits)

lemma label_not_Nil: "label \<noteq> []"
  by (simp add: label_def)

lemma findProjectIDKey_Some:
  assumes "findProjectIDKey keys = Some key"
  shows "key \<in> set keys \<and> trim key = label \<and> key \<noteq> []"
proof -
  from assms have "key \<in> set keys" and t: "trim key = label"
    by (auto simp: findProjectIDKey_def find_Some_iff)
  moreover from t have "key \<noteq> []"
    using trim_Nil label_not_Nil by auto
  ultimately show ?thesis by simp
qed

lemma findProjectIDKey_None:
  "findProjectIDKey keys = None \<longleftrightarrow> (\<forall>key\<in>set keys. trim key \<noteq> label)"
  by (auto simp: findProjectIDKey_def find_None_iff)


text \<open>
  A CSV that has the label in its header and no data row is rejected as empty, by the
  guard on the number of rows.
\<close>

lemma extractProjectIDs_header_only:
  "label \<in> set (meta_fields \<lparr>meta_fields = [label], data = []\<rparr>) \<and> trim label = label \<and>
   extractProjectIDs (Complete \<lparr>meta_fields = [label], data = []\<rparr>) = Inl emptyCsvMessage"
  by (simp add: extractProjectIDs_def trim_def label_def isWhiteSpace_def)

text \<open>
  When the first data row has a cell under a header field whose trimmed name is the
  label, the extractor returns exactly the trimmed, non-empty values of the first such
  column, in row order; a later row that lacks the cell contributes the empty value and
  is left out, with no error.
\<close>

lemma extractProjectIDs_column_values:
  assumes "data results = first # rest"
    and "\<exists>key\<in>set (map fst first). trim key = label"
  shows "\<exists>key. findProjectIDKey (map fst first) = Some key \<and> trim key = label \<and>
           extractProjectIDs (Complete results) =
             Inr (filter (\<lambda>v. v \<noteq> [])
                    (map (\<lambda>row. trim (columnCell key row)) (data results)))"
proof -
  from assms(2) obtain key where key: "findProjectIDKey (map fst first) = Some key"
    using findProjectIDKey_None [of "map fst first"]
    by (cases "findProjectIDKey (map fst first)") auto
  from findProjectIDKey_Some [OF key] have "trim key = label" "key \<noteq> []"
    by simp_all
  then show ?thesis
    using key assms(1) by (simp add: extractProjectIDs_def cellOfRow_columnCell [abs_def])
qed

lemma extractProjectIDs_column_values_example:
  "extractProjectIDs (Complete \<lparr>meta_fields = [js ''name'', label],
      data = [[(js ''name'', js ''a''), (label, js '' ABC '')],
              [(js ''name'', js ''b'')],
              [(js ''name'', js ''c''), (label, js ''  '')],
              [(js ''name'', js ''d''), (label, js ''DEF'')]]\<rparr>) =
   Inr [js ''ABC'', js ''DEF'']"
proof -
  let ?first = "[(js ''name'', js ''a''), (label, js '' ABC '')]"
  let ?rest = "[[(js ''name'', js ''b'')],
              [(js ''name'', js ''c''), (label, js ''  '')],
              [(js ''name'', js ''d''), (label, js ''DEF'')]]"
  let ?r = "\<lparr>meta_fields = [js ''name'', label], data = ?first # ?rest\<rparr>"
  have rows: "data ?r = ?first # ?rest" by simp
  have labelled: "\<exists>key\<in>set (map fst ?first). trim key = label"
    by (simp add: trim_def label_def isWhiteSpace_def js_def)
  from extractProjectIDs_column_values [OF rows labelled]
  obtain key where key: "findProjectIDKey (map fst ?first) = Some key"
    and res: "extractProjectIDs (Complete ?r) =
       Inr (filter (\<lambda>v. v \<noteq> []) (map (\<lambda>row. trim (columnCell key row)) (data ?r)))"
    by blast
  from key have "key = label"
    by (simp add: findProjectIDKey_def trim_def label_def isWhiteSpace_def js_def)
  with res show ?thesis
    by (simp add: columnCell_def trim_def label_def isWhiteSpace_def js_def)
qed

text \<open>
  C2. The header is taken from the keys of the first row object, not from the header
  row. On the CSV with the header fields \<open>name\<close> and the label, a first data row that
  has the cell \<open>a\<close> only and a second data row with the cells \<open>b\<close> and \<open>ABC\<close>, the header
  names the label and the trimmed, non-empty values of its column, the short row
  counting as empty, are \<open>ABC\<close> alone; the extractor reports the column as missing.
\<close>

theorem extractProjectIDs_short_first_row:
  "label \<in> set (meta_fields \<lparr>meta_fields = [js ''name'', label],
      data = [[(js ''name'', js ''a'')], [(js ''name'', js ''b''), (label, js ''ABC'')]]\<rparr>) \<and>
   trim label = label \<and>
   filter (\<lambda>v. v \<noteq> []) (map (\<lambda>row. trim (columnCell label row))
      (data \<lparr>meta_fields = [js ''name'', label],
         data = [[(js ''name'', js ''a'')], [(js ''name'', js ''b''), (label, js ''ABC'')]]\<rparr>)) =
     [js ''ABC''] \<and>
   extractProjectIDs (Complete \<lparr>meta_fields = [js ''name'', label],
      data = [[(js ''name'', js ''a'')], [(js ''name'', js ''b''), (label, js ''ABC'')]]\<rparr>) =
     Inl noColumnMessage"
  by (simp add: extractProjectIDs_def findProjectIDKey_def columnCell_def trim_def label_def
      isWhiteSpace_def js_def)




section \<open>The handler\<close>

subsection \<open>The steps before the submission\<close>

text \<open>Steps 1 to 4 only read.\<close>

lemma matching_reads_only: "matching R p = (tr, res) \<Longrightarrow> mutations tr = []"
  by (auto simp: matching_def mutations_def Let_def split: sum.splits option.splits prod.splits)

text \<open>When the matching is complete, every step before it has succeeded.\<close>

lemma matching_done:
  assumes "matching R p = (tr, Inr (Inr reqs))"
  shows "\<exists>sheets t i hv idx cv.
           spreadsheets_get R (googleSpreadSheetID p) = Inr sheets \<and>
           resolveSheet sheets (sheetName p) = Inr (t, i) \<and>
           values_get R (googleSpreadSheetID p) (headerRange t) = Inr hv \<and>
           findIndexFrom 0 (headerRowOf hv) = Inr (Some idx) \<and>
           values_get R (googleSpreadSheetID p) (projectIDRange t idx) = Inr cv \<and>
           buildUpdateRequests i (extractedProjectIDs p) (projectIDColumnOf cv) = Inr reqs \<and>
           tr = [SpreadsheetsGet (googleSpreadSheetID p),
                 ValuesGet (googleSpreadSheetID p) (headerRange t),
                 ValuesGet (googleSpreadSheetID p) (projectIDRange t idx)]"
  using assms
  by (auto simp: matching_def Let_def split: sum.splits option.splits prod.splits)

lemma matching_steps:
  assumes "spreadsheets_get R (googleSpreadSheetID p) = Inr sheets"
    and "resolveSheet sheets (sheetName p) = Inr (t, i)"
    and "values_get R (googleSpreadSheetID p) (headerRange t) = Inr hv"
    and "findIndexFrom 0 (headerRowOf hv) = Inr (Some idx)"
    and "values_get R (googleSpreadSheetID p) (projectIDRange t idx) = Inr cv"
    and "buildUpdateRequests i (extractedProjectIDs p) (projectIDColumnOf cv) = Inr reqs"
  shows "matching R p =
           ([SpreadsheetsGet (googleSpreadSheetID p),
             ValuesGet (googleSpreadSheetID p) (headerRange t),
             ValuesGet (googleSpreadSheetID p) (projectIDRange t idx)], Inr (Inr reqs))"
  using assms by (simp add: matching_def Let_def)

lemma matching_cong:
  assumes "set (extractedProjectIDs p1) = set (extractedProjectIDs p2)"
    and "googleSpreadSheetID p1 = googleSpreadSheetID p2"
    and "sheetName p1 = sheetName p2"
  shows "matching R p1 = matching R p2"
  unfolding matching_def assms(2) assms(3) buildUpdateRequests_cong [OF assms(1)]
  by (rule refl)

lemma resolveSheet_Inl: "resolveSheet sheets name = Inl r \<Longrightarrow> r = sheetNotFound name"
  by (auto simp: resolveSheet_def Let_def split: option.splits if_splits)

lemma matching_early:
  "matching R p = (tr, Inr (Inl r)) \<Longrightarrow> r = sheetNotFound (sheetName p) \<or> r = columnNotFound"
  by (auto simp: matching_def Let_def dest: resolveSheet_Inl
      split: sum.splits option.splits prod.splits)

lemma matching_unresolved:
  assumes "spreadsheets_get R (googleSpreadSheetID p) = Inr sheets"
    and "resolveSheet sheets (sheetName p) = Inl r"
  shows "matching R p = ([SpreadsheetsGet (googleSpreadSheetID p)], Inr (Inl r))"
  using assms by (simp add: matching_def)

lemma matching_resolved_early:
  assumes "spreadsheets_get R (googleSpreadSheetID p) = Inr sheets"
    and "resolveSheet sheets (sheetName p) = Inr (t, i)"
    and "matching R p = (tr, Inr (Inl r))"
  shows "r = columnNotFound"
  using assms by (auto simp: matching_def Let_def split: sum.splits option.splits)

subsection \<open>Responses and calls\<close>

lemma decimal_0: "decimal 0 = js ''0''"
  by (simp add: decimal.simps js_def)

lemma isSuccess_simps:
  "\<not> isSuccess (apiError e)" "\<not> isSuccess (sheetNotFound name)" "\<not> isSuccess columnNotFound"
  "isSuccess (updated n name)"
  by (simp_all add: isSuccess_def apiError_def sheetNotFound_def columnNotFound_def updated_def)

lemma other_responses:
  "apiError e \<noteq> sheetNotFound name" "columnNotFound \<noteq> sheetNotFound name"
  "updated n nm \<noteq> sheetNotFound name"
  by (simp_all add: apiError_def sheetNotFound_def columnNotFound_def updated_def js_def)

lemma mutations_Nil_iff: "mutations tr = [] \<longleftrightarrow> (\<forall>c\<in>set tr. \<not> is_mutation c)"
  by (simp add: mutations_def filter_empty_conv)

lemma mutations_snoc:
  "mutations (calls @ [BatchUpdate sid reqs]) = mutations calls @ [BatchUpdate sid reqs]"
  by (simp add: mutations_def)

text \<open>
  The six ways a request ends: the payload does not parse; a step before the submission
  throws; a step returns early; nothing matches; the batch is refused; the batch is
  accepted.
\<close>

lemma POST_cases:
  assumes "POST R request = (resp, tr)"
  obtains
    (json) e where "request = Inl e" "resp = apiError e" "tr = []"
  | (thrown) p e where "request = Inr p" "matching R p = (tr, Inl e)" "resp = apiError e"
  | (early) p where "request = Inr p" "matching R p = (tr, Inr (Inl resp))"
  | (none) p where "request = Inr p" "matching R p = (tr, Inr (Inr []))"
      "resp = updated 0 (sheetName p)"
  | (refused) p calls reqs e where "request = Inr p" "matching R p = (calls, Inr (Inr reqs))"
      "reqs \<noteq> []" "batchUpdate R (googleSpreadSheetID p) reqs = Inl e"
      "resp = apiError e" "tr = calls @ [BatchUpdate (googleSpreadSheetID p) reqs]"
  | (submitted) p calls reqs where "request = Inr p" "matching R p = (calls, Inr (Inr reqs))"
      "reqs \<noteq> []" "batchUpdate R (googleSpreadSheetID p) reqs = Inr ()"
      "resp = updated (length reqs) (sheetName p)"
      "tr = calls @ [BatchUpdate (googleSpreadSheetID p) reqs]"
proof (cases request)
  case (Inl e)
  with assms json show ?thesis by (simp add: POST_def)
next
  case (Inr p)
  obtain calls res where m: "matching R p = (calls, res)"
    by (cases "matching R p") auto
  show ?thesis
  proof (cases res)
    case (Inl e)
    with assms Inr m thrown show ?thesis by (simp add: POST_def handler_def)
  next
    case res: (Inr res')
    show ?thesis
    proof (cases res')
      case (Inl r)
      with assms Inr m res early show ?thesis by (simp add: POST_def handler_def)
    next
      case reqs: (Inr reqs)
      show ?thesis
      proof (cases "reqs = []")
        case True
        with assms Inr m res reqs none show ?thesis by (simp add: POST_def handler_def)
      next
        case False
        show ?thesis
        proof (cases "batchUpdate R (googleSpreadSheetID p) reqs")
          case (Inl e)
          with assms Inr m res reqs False refused show ?thesis
            by (simp add: POST_def handler_def)
        next
          case ok: (Inr u)
          with assms Inr m res reqs False submitted show ?thesis
            by (simp add: POST_def handler_def)
        qed
      qed
    qed
  qed
qed

subsection \<open>The sheet\<close>

lemma find_Some_holds: "find P xs = Some x \<Longrightarrow> P x \<and> x \<in> set xs"
  by (induction xs) (auto split: if_splits)

lemma findTargetSheet_entries:
  "findTargetSheet sheets name = find (\<lambda>s. titleOf s = Some name) (sheetEntries sheets)"
  by (simp add: findTargetSheet_def sheetEntries_def split: option.splits)

lemma resolveSheet_find:
  "resolveSheet sheets name =
     (case find (\<lambda>s. titleOf s = Some name) (sheetEntries sheets) of
        None \<Rightarrow> Inl (sheetNotFound name)
      | Some s \<Rightarrow>
          (case sheetIdOf s of
             None \<Rightarrow> Inl (sheetNotFound name)
           | Some i \<Rightarrow> if name = [] then Inl (sheetNotFound name) else Inr (name, i)))"
proof (cases "find (\<lambda>s. titleOf s = Some name) (sheetEntries sheets)")
  case None
  then show ?thesis
    by (simp add: resolveSheet_def findTargetSheet_entries)
next
  case (Some s)
  from find_Some_holds [OF Some] have "titleOf s = Some name" by simp
  then show ?thesis
    by (simp add: resolveSheet_def findTargetSheet_entries Some split: option.splits)
qed

lemma resolveSheet_Inr_iff:
  "resolveSheet sheets name = Inr (t, i) \<longleftrightarrow>
     (\<exists>s. find (\<lambda>s. titleOf s = Some name) (sheetEntries sheets) = Some s \<and>
          t = name \<and> name \<noteq> [] \<and> sheetIdOf s = Some i)"
  by (auto simp: resolveSheet_find split: option.splits if_splits)

lemma resolveSheet_Inl_iff:
  "resolveSheet sheets name = Inl (sheetNotFound name) \<longleftrightarrow>
     (\<forall>s\<in>set (sheetEntries sheets). titleOf s \<noteq> Some name) \<or> name = [] \<or>
     (\<exists>s. find (\<lambda>s. titleOf s = Some name) (sheetEntries sheets) = Some s \<and>
          sheetIdOf s = None)"
  by (auto simp: resolveSheet_find find_None_iff dest: find_Some_holds
      split: option.splits if_splits)

subsection \<open>The scenario, evaluated\<close>

lemma columnA_requests:
  "buildUpdateRequests 7 [js ''ABC'', js ''DEF''] columnA = Inr [repeatCell 7 3, repeatCell 7 4]"
  by (simp add: buildUpdateRequests_rows columnA_def cellAt_def index_def trim_def
      isWhiteSpace_def js_def label_def upt_rec)

lemma columnA_no_requests:
  "buildUpdateRequests 7 [js ''QQQ''] columnA = Inr []"
  by (simp add: buildUpdateRequests_rows columnA_def cellAt_def index_def trim_def
      isWhiteSpace_def js_def label_def upt_rec)

lemma resolveSheet_S: "resolveSheet (Some [sheetS]) (js ''S'') = Inr (js ''S'', 7)"
  by (simp add: resolveSheet_def findTargetSheet_def sheetS_def titleOf_def sheetIdOf_def js_def)

lemma findIndexFrom_A:
  "findIndexFrom 0 (headerRowOf (Some [Some [Some (js ''name''), Some label]])) = Inr (Some 1)"
  by (simp add: headerRowOf_def deref_def trim_def isWhiteSpace_def js_def label_def)

lemma headerRange_S: "headerRange (js ''S'') = js ''S!1:1''"
  by (simp add: headerRange_def js_def)

lemma matching_storeA:
  "buildUpdateRequests 7 ids columnA = Inr reqs \<Longrightarrow>
   matching storeA (payloadA ids) =
     ([SpreadsheetsGet (js ''doc''), ValuesGet (js ''doc'') (js ''S!1:1''),
       ValuesGet (js ''doc'') (js ''S!B:B'')], Inr (Inr reqs))"
  apply (simp add: matching_def storeA_def tableStore_def payloadA_def resolveSheet_S
      headerRange_S)
  apply (simp add: readRange_def findIndexFrom_A projectIDColumnOf_def)
  apply (simp add: js_def headerRange_def projectIDRange_def projectIDColumnLetter_def Let_def)
  done

lemma POST_storeA:
  "POST storeA (Inr (payloadA [js ''ABC'', js ''DEF''])) =
     (\<lparr>body = SuccessBody (js ''2 rows were successfully updated in the Google Sheet: S.''),
       status = 200\<rparr>,
      [SpreadsheetsGet (js ''doc''), ValuesGet (js ''doc'') (js ''S!1:1''),
       ValuesGet (js ''doc'') (js ''S!B:B''),
       BatchUpdate (js ''doc'') [repeatCell 7 3, repeatCell 7 4]])"
  apply (simp only: POST_def sum.case handler_def matching_storeA [OF columnA_requests])
  apply (simp add: updated_def updatedMessage_def decimal.simps storeA_def tableStore_def
      payloadA_def js_def)
  done

lemma POST_refusingStoreA:
  "POST refusingStoreA (Inr (payloadA [js ''ABC'', js ''DEF''])) =
     (\<lparr>body = ErrorBody (js ''API Error: quota''), status = 500\<rparr>,
      [SpreadsheetsGet (js ''doc''), ValuesGet (js ''doc'') (js ''S!1:1''),
       ValuesGet (js ''doc'') (js ''S!B:B''),
       BatchUpdate (js ''doc'') [repeatCell 7 3, repeatCell 7 4]])"
proof -
  have "matching refusingStoreA (payloadA [js ''ABC'', js ''DEF'']) =
      matching storeA (payloadA [js ''ABC'', js ''DEF''])"
    unfolding matching_def refusingStoreA_def by (simp cong: sum.case_cong option.case_cong)
  then show ?thesis
    apply (simp only: POST_def sum.case handler_def matching_storeA [OF columnA_requests])
    apply (simp add: apiError_def refusingStoreA_def payloadA_def js_def)
    done
qed

lemma POST_storeA_none:
  "POST storeA (Inr (payloadA [js ''QQQ''])) =
     (\<lparr>body = SuccessBody (js ''0 rows were successfully updated in the Google Sheet: S.''),
       status = 200\<rparr>,
      [SpreadsheetsGet (js ''doc''), ValuesGet (js ''doc'') (js ''S!1:1''),
       ValuesGet (js ''doc'') (js ''S!B:B'')])"
  apply (simp only: POST_def sum.case handler_def matching_storeA [OF columnA_no_requests])
  apply (simp add: updated_def updatedMessage_def decimal.simps payloadA_def js_def)
  done

subsection \<open>The marked rows and the reported count\<close>




subsection \<open>No match, no submission\<close>

text \<open>
  C4. For every request that gets as far as the matching (the sheet is resolved, the
  label is found in row 1 and the column is read) and in which no row from 2 on has a
  trimmed cell that is non-empty and in the list, the handler makes no batch-update
  call (its calls are the three reads) and answers with status 200 and the success
  message for 0 rows.
\<close>

theorem POST_no_match_no_submission:
  assumes "spreadsheets_get R (googleSpreadSheetID p) = Inr sheets"
    and "resolveSheet sheets (sheetName p) = Inr (t, i)"
    and "values_get R (googleSpreadSheetID p) (headerRange t) = Inr hv"
    and "findIndexFrom 0 (headerRowOf hv) = Inr (Some idx)"
    and "values_get R (googleSpreadSheetID p) (projectIDRange t idx) = Inr cv"
    and "\<forall>r. 2 \<le> r \<and> r \<le> length (projectIDColumnOf cv) \<longrightarrow>
           trim (cellAt (projectIDColumnOf cv) r) = [] \<or>
           trim (cellAt (projectIDColumnOf cv) r) \<notin> set (extractedProjectIDs p)"
  shows "POST R (Inr p) =
           (\<lparr>body = SuccessBody (js ''0 rows were successfully updated in the Google Sheet: '' @
               sheetName p @ js ''.''), status = 200\<rparr>,
            [SpreadsheetsGet (googleSpreadSheetID p),
             ValuesGet (googleSpreadSheetID p) (headerRange t),
             ValuesGet (googleSpreadSheetID p) (projectIDRange t idx)]) \<and>
         mutations [SpreadsheetsGet (googleSpreadSheetID p),
             ValuesGet (googleSpreadSheetID p) (headerRange t),
             ValuesGet (googleSpreadSheetID p) (projectIDRange t idx)] = []"
proof -
  from assms(6) have
    "buildUpdateRequests i (extractedProjectIDs p) (projectIDColumnOf cv) = Inr []"
    by (auto simp: buildUpdateRequests_rows filter_empty_conv)
  from matching_steps [OF assms(1-5) this] show ?thesis
    by (simp add: POST_def handler_def updated_def updatedMessage_def decimal_0 js_def
        mutations_def)
qed

theorem POST_no_match_no_submission_witness:
  "POST storeA (Inr (payloadA [js ''QQQ''])) =
     (\<lparr>body = SuccessBody (js ''0 rows were successfully updated in the Google Sheet: S.''),
       status = 200\<rparr>,
      [SpreadsheetsGet (js ''doc''), ValuesGet (js ''doc'') (js ''S!1:1''),
       ValuesGet (js ''doc'') (js ''S!B:B'')]) \<and>
   mutations [SpreadsheetsGet (js ''doc''), ValuesGet (js ''doc'') (js ''S!1:1''),
       ValuesGet (js ''doc'') (js ''S!B:B'')] = []"
proof -
  let ?p = "payloadA [js ''QQQ'']"
  have name: "sheetName ?p = js ''S''"
    by (simp add: payloadA_def)
  have listed: "spreadsheets_get storeA (googleSpreadSheetID ?p) = Inr (Some [sheetS])"
    by (simp add: storeA_def tableStore_def)
  have resolved: "resolveSheet (Some [sheetS]) (sheetName ?p) = Inr (js ''S'', 7)"
    by (simp only: name resolveSheet_S)
  have header: "values_get storeA (googleSpreadSheetID ?p) (headerRange (js ''S'')) =
      Inr (Some [Some [Some (js ''name''), Some label]])"
    by (simp add: storeA_def tableStore_def readRange_def headerRange_def js_def)
  have column: "values_get storeA (googleSpreadSheetID ?p) (projectIDRange (js ''S'') 1) =
      Inr (Some columnA)"
    by (simp add: storeA_def tableStore_def readRange_def projectIDRange_def
        projectIDColumnLetter_def js_def)
  have unmatched: "\<forall>r. 2 \<le> r \<and> r \<le> length (projectIDColumnOf (Some columnA)) \<longrightarrow>
      trim (cellAt (projectIDColumnOf (Some columnA)) r) = [] \<or>
      trim (cellAt (projectIDColumnOf (Some columnA)) r) \<notin> set (extractedProjectIDs ?p)"
  proof (intro allI impI)
    fix r
    assume "2 \<le> r \<and> r \<le> length (projectIDColumnOf (Some columnA))"
    then have "r \<in> {2, 3, 4, 5}"
      by (auto simp: projectIDColumnOf_def columnA_def)
    then show "trim (cellAt (projectIDColumnOf (Some columnA)) r) = [] \<or>
      trim (cellAt (projectIDColumnOf (Some columnA)) r) \<notin> set (extractedProjectIDs ?p)"
      by (auto simp: payloadA_def projectIDColumnOf_def columnA_def cellAt_def index_def
          trim_def isWhiteSpace_def js_def)
  qed
  from POST_no_match_no_submission [OF listed resolved header findIndexFrom_A column unmatched]
  show ?thesis
    by (simp add: payloadA_def headerRange_def projectIDRange_def projectIDColumnLetter_def
        js_def)
qed

subsection \<open>One submission, after the matching\<close>

text \<open>
  C5. For every request: at most one mutating call is made; a mutating call is the
  batch update of the complete list of requests, made last, after all reads and the
  whole matching; a success response is given only when every step has succeeded (so
  the failure of any step gives an error response); and with an error response either
  no mutating call was made, or the only one is the submission, which itself failed.
\<close>

theorem POST_single_submission:
  assumes "POST R request = (resp, tr)"
  shows "length (mutations tr) \<le> 1 \<and>
    (\<forall>c\<in>set tr. is_mutation c \<longrightarrow>
       (\<exists>p calls reqs. request = Inr p \<and> matching R p = (calls, Inr (Inr reqs)) \<and> reqs \<noteq> [] \<and>
          tr = calls @ [c] \<and> c = BatchUpdate (googleSpreadSheetID p) reqs \<and>
          mutations calls = [])) \<and>
    (isSuccess resp \<longrightarrow>
       (\<exists>p sheets t i hv idx cv reqs. request = Inr p \<and>
          spreadsheets_get R (googleSpreadSheetID p) = Inr sheets \<and>
          resolveSheet sheets (sheetName p) = Inr (t, i) \<and>
          values_get R (googleSpreadSheetID p) (headerRange t) = Inr hv \<and>
          findIndexFrom 0 (headerRowOf hv) = Inr (Some idx) \<and>
          values_get R (googleSpreadSheetID p) (projectIDRange t idx) = Inr cv \<and>
          buildUpdateRequests i (extractedProjectIDs p) (projectIDColumnOf cv) = Inr reqs \<and>
          (reqs = [] \<or> batchUpdate R (googleSpreadSheetID p) reqs = Inr ()))) \<and>
    (\<not> isSuccess resp \<longrightarrow>
       mutations tr = [] \<or>
       (\<exists>sid reqs e. mutations tr = [BatchUpdate sid reqs] \<and>
          batchUpdate R sid reqs = Inl e \<and> resp = apiError e))"
  using assms
proof (cases rule: POST_cases)
  case (json e)
  then show ?thesis
    by (simp add: mutations_def isSuccess_simps)
next
  case (thrown p e)
  from matching_reads_only [OF thrown(2)] have quiet: "mutations tr = []" .
  then have "\<forall>c\<in>set tr. \<not> is_mutation c"
    by (simp add: mutations_Nil_iff)
  then show ?thesis
    by (simp add: quiet thrown(3) isSuccess_simps)
next
  case (early p)
  from matching_reads_only [OF early(2)] have quiet: "mutations tr = []" .
  from matching_early [OF early(2)] have "\<not> isSuccess resp"
    by (auto simp: isSuccess_simps)
  moreover from quiet have "\<forall>c\<in>set tr. \<not> is_mutation c"
    by (simp add: mutations_Nil_iff)
  ultimately show ?thesis
    by (simp add: quiet)
next
  case (none p)
  from matching_reads_only [OF none(2)] have quiet: "mutations tr = []" .
  from matching_done [OF none(2)] none(1) have
    "\<exists>p sheets t i hv idx cv reqs. request = Inr p \<and>
          spreadsheets_get R (googleSpreadSheetID p) = Inr sheets \<and>
          resolveSheet sheets (sheetName p) = Inr (t, i) \<and>
          values_get R (googleSpreadSheetID p) (headerRange t) = Inr hv \<and>
          findIndexFrom 0 (headerRowOf hv) = Inr (Some idx) \<and>
          values_get R (googleSpreadSheetID p) (projectIDRange t idx) = Inr cv \<and>
          buildUpdateRequests i (extractedProjectIDs p) (projectIDColumnOf cv) = Inr reqs \<and>
          (reqs = [] \<or> batchUpdate R (googleSpreadSheetID p) reqs = Inr ())"
    by blast
  moreover from quiet have "\<forall>c\<in>set tr. \<not> is_mutation c"
    by (simp add: mutations_Nil_iff)
  ultimately show ?thesis
    by (simp add: quiet)
next
  case (refused p calls reqs e)
  from matching_reads_only [OF refused(2)] have quiet: "mutations calls = []" .
  then have m: "mutations tr = [BatchUpdate (googleSpreadSheetID p) reqs]"
    by (simp add: refused(6) mutations_snoc)
  have last: "\<exists>p calls reqs. request = Inr p \<and> matching R p = (calls, Inr (Inr reqs)) \<and>
      reqs \<noteq> [] \<and> tr = calls @ [c] \<and> c = BatchUpdate (googleSpreadSheetID p) reqs \<and>
      mutations calls = []" if "c \<in> set tr" "is_mutation c" for c
  proof -
    from that quiet have "c = BatchUpdate (googleSpreadSheetID p) reqs"
      by (auto simp: refused(6) mutations_Nil_iff)
    with refused quiet show ?thesis by blast
  qed
  have "\<not> isSuccess resp"
    by (simp add: refused(5) isSuccess_simps)
  moreover have "\<exists>sid reqs e. mutations tr = [BatchUpdate sid reqs] \<and>
          batchUpdate R sid reqs = Inl e \<and> resp = apiError e"
    using m refused(4,5) by blast
  ultimately show ?thesis
    using m last by simp
next
  case (submitted p calls reqs)
  from matching_reads_only [OF submitted(2)] have quiet: "mutations calls = []" .
  then have m: "mutations tr = [BatchUpdate (googleSpreadSheetID p) reqs]"
    by (simp add: submitted(6) mutations_snoc)
  have last: "\<exists>p calls reqs. request = Inr p \<and> matching R p = (calls, Inr (Inr reqs)) \<and>
      reqs \<noteq> [] \<and> tr = calls @ [c] \<and> c = BatchUpdate (googleSpreadSheetID p) reqs \<and>
      mutations calls = []" if "c \<in> set tr" "is_mutation c" for c
  proof -
    from that quiet have "c = BatchUpdate (googleSpreadSheetID p) reqs"
      by (auto simp: submitted(6) mutations_Nil_iff)
    with submitted quiet show ?thesis by blast
  qed
  have ok: "isSuccess resp"
    by (simp add: submitted(5) isSuccess_simps)
  from matching_done [OF submitted(2)] submitted(1,4) have
    "\<exists>p sheets t i hv idx cv reqs. request = Inr p \<and>
          spreadsheets_get R (googleSpreadSheetID p) = Inr sheets \<and>
          resolveSheet sheets (sheetName p) = Inr (t, i) \<and>
          values_get R (googleSpreadSheetID p) (headerRange t) = Inr hv \<and>
          findIndexFrom 0 (headerRowOf hv) = Inr (Some idx) \<and>
          values_get R (googleSpreadSheetID p) (projectIDRange t idx) = Inr cv \<and>
          buildUpdateRequests i (extractedProjectIDs p) (projectIDColumnOf cv) = Inr reqs \<and>
          (reqs = [] \<or> batchUpdate R (googleSpreadSheetID p) reqs = Inr ())"
    by blast
  with ok m last show ?thesis by simp
qed

text \<open>
  The scenario behind the store that refuses the batch: the response is the error of
  the submission, and the refused batch is the only mutating call.
\<close>

theorem POST_single_submission_witness:
  "POST refusingStoreA (Inr (payloadA [js ''ABC'', js ''DEF''])) =
     (\<lparr>body = ErrorBody (js ''API Error: quota''), status = 500\<rparr>,
      [SpreadsheetsGet (js ''doc''), ValuesGet (js ''doc'') (js ''S!1:1''),
       ValuesGet (js ''doc'') (js ''S!B:B''),
       BatchUpdate (js ''doc'') [repeatCell 7 3, repeatCell 7 4]]) \<and>
   length (mutations
      [SpreadsheetsGet (js ''doc''), ValuesGet (js ''doc'') (js ''S!1:1''),
       ValuesGet (js ''doc'') (js ''S!B:B''),
       BatchUpdate (js ''doc'') [repeatCell 7 3, repeatCell 7 4]]) \<le> 1"
  using POST_single_submission [OF POST_refusingStoreA] POST_refusingStoreA by blast

subsection \<open>The sheet that is not found\<close>

text \<open>
  C6, as stated, fails when the requested name is empty and an entry has the empty
  title: the entry's title equals the name, and the guard on the title still answers
  that the sheet could not be found.
\<close>

theorem POST_empty_title_counterexample:
  "titleOf \<lparr>properties = Some \<lparr>title = Some [], sheetId = Some 0\<rparr>\<rparr> = Some [] \<and>
   POST (tableStore [\<lparr>properties = Some \<lparr>title = Some [], sheetId = Some 0\<rparr>\<rparr>] [])
     (Inr \<lparr>extractedProjectIDs = [], googleSpreadSheetID = js ''doc'', sheetName = []\<rparr>) =
     (sheetNotFound [], [SpreadsheetsGet (js ''doc'')])"
  by (simp add: POST_def handler_def matching_def tableStore_def resolveSheet_def
      findTargetSheet_def titleOf_def sheetIdOf_def)

text \<open>
  C6, amended. When the sheet list is read, the response is the sheet-not-found error
  if and only if no entry's title equals the requested name, or the name is empty, or
  the first entry with that title carries no identifier; then the only call made is the
  read of the sheet list. Otherwise the identifier of the first entry with that title
  is the sheet identifier of every request submitted.
\<close>

theorem POST_sheet_not_found_iff:
  assumes "spreadsheets_get R (googleSpreadSheetID p) = Inr sheets"
    and "POST R (Inr p) = (resp, tr)"
  shows "(resp = sheetNotFound (sheetName p) \<longleftrightarrow>
            (\<forall>s\<in>set (sheetEntries sheets). titleOf s \<noteq> Some (sheetName p)) \<or>
            sheetName p = [] \<or>
            (\<exists>s. find (\<lambda>s. titleOf s = Some (sheetName p)) (sheetEntries sheets) = Some s \<and>
                 sheetIdOf s = None)) \<and>
         (resp = sheetNotFound (sheetName p) \<longrightarrow>
            tr = [SpreadsheetsGet (googleSpreadSheetID p)]) \<and>
         (\<forall>sid reqs q. BatchUpdate sid reqs \<in> set tr \<longrightarrow> q \<in> set reqs \<longrightarrow>
            (\<exists>s. find (\<lambda>s. titleOf s = Some (sheetName p)) (sheetEntries sheets) = Some s \<and>
                 sheetIdOf s = Some (range_sheetId (range q))))"
proof (cases "resolveSheet sheets (sheetName p)")
  case (Inl r)
  from resolveSheet_Inl [OF Inl] have r: "r = sheetNotFound (sheetName p)" .
  from matching_unresolved [OF assms(1) Inl] assms(2)
  have "resp = sheetNotFound (sheetName p)" "tr = [SpreadsheetsGet (googleSpreadSheetID p)]"
    by (simp_all add: POST_def handler_def r)
  moreover from Inl r have
    "(\<forall>s\<in>set (sheetEntries sheets). titleOf s \<noteq> Some (sheetName p)) \<or>
            sheetName p = [] \<or>
            (\<exists>s. find (\<lambda>s. titleOf s = Some (sheetName p)) (sheetEntries sheets) = Some s \<and>
                 sheetIdOf s = None)"
    by (simp only: resolveSheet_Inl_iff)
  ultimately show ?thesis by simp
next
  case (Inr ti)
  obtain t i where ti: "ti = (t, i)" by (cases ti)
  with Inr have resolved: "resolveSheet sheets (sheetName p) = Inr (t, i)" by simp
  then obtain s where s:
    "find (\<lambda>s. titleOf s = Some (sheetName p)) (sheetEntries sheets) = Some s"
    "sheetName p \<noteq> []" "sheetIdOf s = Some i"
    by (auto simp: resolveSheet_Inr_iff)
  from resolved have not_cond:
    "\<not> ((\<forall>s\<in>set (sheetEntries sheets). titleOf s \<noteq> Some (sheetName p)) \<or>
            sheetName p = [] \<or>
            (\<exists>s. find (\<lambda>s. titleOf s = Some (sheetName p)) (sheetEntries sheets) = Some s \<and>
                 sheetIdOf s = None))"
    by (simp only: resolveSheet_Inl_iff [symmetric]) simp
  have same: "i' = i" if "spreadsheets_get R (googleSpreadSheetID p) = Inr sheets'"
    "resolveSheet sheets' (sheetName p) = Inr (t', i')" for sheets' t' i'
    using that assms(1) resolved by simp
  have found: "resp \<noteq> sheetNotFound (sheetName p)"
    using assms(2)
  proof (cases rule: POST_cases)
    case (early p')
    then have "matching R p = (tr, Inr (Inl resp))" by simp
    from matching_resolved_early [OF assms(1) resolved this] show ?thesis
      by (simp add: other_responses)
  qed (simp_all add: other_responses)
  have ids: "range_sheetId (range q) = i"
    if "BatchUpdate sid reqs \<in> set tr" "q \<in> set reqs" for sid reqs q
  proof -
    have "\<exists>calls. matching R p = (calls, Inr (Inr reqs))"
      using assms(2)
    proof (cases rule: POST_cases)
      case (thrown p' e)
      with matching_reads_only [of R p tr] that(1) show ?thesis
        by (auto simp: mutations_Nil_iff)
    next
      case (early p')
      with matching_reads_only [of R p tr] that(1) show ?thesis
        by (auto simp: mutations_Nil_iff)
    next
      case (none p')
      with matching_reads_only [of R p tr] that(1) show ?thesis
        by (auto simp: mutations_Nil_iff)
    next
      case (refused p' calls reqs' e)
      with matching_reads_only [of R p calls] that(1) show ?thesis
        by (auto simp: mutations_Nil_iff)
    next
      case (submitted p' calls reqs')
      with matching_reads_only [of R p calls] that(1) show ?thesis
        by (auto simp: mutations_Nil_iff)
    qed simp
    then obtain calls where "matching R p = (calls, Inr (Inr reqs))" ..
    from matching_done [OF this] obtain sheets' t' i' cv idx where
      "spreadsheets_get R (googleSpreadSheetID p) = Inr sheets'"
      "resolveSheet sheets' (sheetName p) = Inr (t', i')"
      "buildUpdateRequests i' (extractedProjectIDs p) (projectIDColumnOf cv) = Inr reqs"
      by blast
    with same requests_sheetId that(2) show ?thesis by blast
  qed
  from found not_cond ids s show ?thesis
    by simp
qed

text \<open>In the scenario the sheet is found, and its identifier 7 is that of the requests.\<close>

theorem POST_sheet_not_found_iff_witness:
  "\<lparr>body = SuccessBody (js ''2 rows were successfully updated in the Google Sheet: S.''),
       status = 200\<rparr> \<noteq> sheetNotFound (js ''S'') \<and>
   (\<exists>s. find (\<lambda>s. titleOf s = Some (js ''S'')) (sheetEntries (Some [sheetS])) = Some s \<and>
        sheetIdOf s = Some (range_sheetId (range (repeatCell 7 3))))"
proof -
  have listed: "spreadsheets_get storeA (googleSpreadSheetID (payloadA [js ''ABC'', js ''DEF''])) =
      Inr (Some [sheetS])"
    by (simp add: storeA_def tableStore_def)
  have name: "sheetName (payloadA [js ''ABC'', js ''DEF'']) = js ''S''"
    by (simp add: payloadA_def)
  note inst = POST_sheet_not_found_iff [OF listed POST_storeA, unfolded name]
  have entry: "find (\<lambda>s. titleOf s = Some (js ''S'')) (sheetEntries (Some [sheetS])) = Some sheetS"
    by (simp add: sheetEntries_def sheetS_def titleOf_def)
  from inst entry have "\<lparr>body = SuccessBody
        (js ''2 rows were successfully updated in the Google Sheet: S.''), status = 200\<rparr> \<noteq>
      sheetNotFound (js ''S'')"
    by (auto simp: sheetS_def sheetIdOf_def js_def)
  moreover from inst have
    "\<exists>s. find (\<lambda>s. titleOf s = Some (js ''S'')) (sheetEntries (Some [sheetS])) = Some s \<and>
        sheetIdOf s = Some (range_sheetId (range (repeatCell 7 3)))"
    by (simp add: repeatCell_def)
  ultimately show ?thesis by simp
qed

subsection \<open>The success response\<close>

text \<open>
  C8, as stated, fails on the wording of the message: in the scenario with no matching
  identifier the message is not the one of the specification.
\<close>

theorem POST_success_message_counterexample:
  "POST storeA (Inr (payloadA [js ''QQQ''])) =
     (\<lparr>body = SuccessBody (js ''0 rows were successfully updated in the Google Sheet: S.''),
       status = 200\<rparr>,
      [SpreadsheetsGet (js ''doc''), ValuesGet (js ''doc'') (js ''S!1:1''),
       ValuesGet (js ''doc'') (js ''S!B:B'')]) \<and>
   specMessage 0 (js ''S'') = js ''0 rows updated in sheet S'' \<and>
   js ''0 rows were successfully updated in the Google Sheet: S.'' \<noteq> specMessage 0 (js ''S'')"
  by (simp add: POST_storeA_none) (simp add: specMessage_def decimal.simps js_def)

text \<open>
  C8, amended. For every request answered with success, every step has succeeded and
  the response has status 200 and the message made of the decimal number of matched
  rows of the column read, the words \<open>rows were successfully updated in the Google Sheet:\<close>,
  the requested sheet name and a full stop.
\<close>

theorem POST_success_response:
  assumes "POST R request = (resp, tr)" and "isSuccess resp"
  shows "\<exists>p sheets t i hv idx cv. request = Inr p \<and>
          spreadsheets_get R (googleSpreadSheetID p) = Inr sheets \<and>
          resolveSheet sheets (sheetName p) = Inr (t, i) \<and>
          values_get R (googleSpreadSheetID p) (headerRange t) = Inr hv \<and>
          findIndexFrom 0 (headerRowOf hv) = Inr (Some idx) \<and>
          values_get R (googleSpreadSheetID p) (projectIDRange t idx) = Inr cv \<and>
          resp =
            \<lparr>body = SuccessBody
               (decimal (card {r. 2 \<le> r \<and> r \<le> length (projectIDColumnOf cv) \<and>
                   trim (cellAt (projectIDColumnOf cv) r) \<noteq> [] \<and>
                   trim (cellAt (projectIDColumnOf cv) r) \<in> set (extractedProjectIDs p)}) @
                js '' rows were successfully updated in the Google Sheet: '' @ sheetName p @
                js ''.''),
             status = 200\<rparr>"
proof -
  have finished: ?thesis
    if p: "request = Inr p" and m: "matching R p = (calls, Inr (Inr reqs))"
      and r: "resp = updated (length reqs) (sheetName p)" for p calls reqs
  proof -
    from matching_done [OF m] obtain sheets t i hv idx cv where steps:
      "spreadsheets_get R (googleSpreadSheetID p) = Inr sheets"
      "resolveSheet sheets (sheetName p) = Inr (t, i)"
      "values_get R (googleSpreadSheetID p) (headerRange t) = Inr hv"
      "findIndexFrom 0 (headerRowOf hv) = Inr (Some idx)"
      "values_get R (googleSpreadSheetID p) (projectIDRange t idx) = Inr cv"
      "buildUpdateRequests i (extractedProjectIDs p) (projectIDColumnOf cv) = Inr reqs"
      by blast
    from r have "resp =
            \<lparr>body = SuccessBody
               (decimal (card {r. 2 \<le> r \<and> r \<le> length (projectIDColumnOf cv) \<and>
                   trim (cellAt (projectIDColumnOf cv) r) \<noteq> [] \<and>
                   trim (cellAt (projectIDColumnOf cv) r) \<in> set (extractedProjectIDs p)}) @
                js '' rows were successfully updated in the Google Sheet: '' @ sheetName p @
                js ''.''),
             status = 200\<rparr>"
      by (simp only: buildUpdateRequests_count [OF steps(6)] updated_def updatedMessage_def)
    with p steps(1-5) show ?thesis by blast
  qed
  from assms(1) show ?thesis
  proof (cases rule: POST_cases)
    case (json e)
    with assms(2) show ?thesis by (simp add: isSuccess_simps)
  next
    case (thrown p e)
    with assms(2) show ?thesis by (simp add: isSuccess_simps)
  next
    case (early p)
    from matching_early [OF early(2)] assms(2) show ?thesis
      by (auto simp: isSuccess_simps)
  next
    case (none p)
    from finished [OF none(1,2)] none(3) show ?thesis by simp
  next
    case (refused p calls reqs e)
    with assms(2) show ?thesis by (simp add: isSuccess_simps)
  next
    case (submitted p calls reqs)
    from finished [OF submitted(1,2,5)] show ?thesis .
  qed
qed

theorem POST_success_response_witness:
  "\<exists>p sheets t i hv idx cv.
          (Inr (payloadA [js ''ABC'', js ''DEF'']) :: thrown + payload) = Inr p \<and>
          spreadsheets_get storeA (googleSpreadSheetID p) = Inr sheets \<and>
          resolveSheet sheets (sheetName p) = Inr (t, i) \<and>
          values_get storeA (googleSpreadSheetID p) (headerRange t) = Inr hv \<and>
          findIndexFrom 0 (headerRowOf hv) = Inr (Some idx) \<and>
          values_get storeA (googleSpreadSheetID p) (projectIDRange t idx) = Inr cv \<and>
          \<lparr>body = SuccessBody (js ''2 rows were successfully updated in the Google Sheet: S.''),
            status = 200\<rparr> =
            \<lparr>body = SuccessBody
               (decimal (card {r. 2 \<le> r \<and> r \<le> length (projectIDColumnOf cv) \<and>
                   trim (cellAt (projectIDColumnOf cv) r) \<noteq> [] \<and>
                   trim (cellAt (projectIDColumnOf cv) r) \<in> set (extractedProjectIDs p)}) @
                js '' rows were successfully updated in the Google Sheet: '' @ sheetName p @
                js ''.''),
             status = 200\<rparr>"
  by (rule POST_success_response [OF POST_storeA]) (simp add: isSuccess_def)

subsection \<open>Membership only\<close>

text \<open>
  C9. Two requests for the same document and sheet whose identifier lists have the same
  members, in whatever order and with whatever repetitions, build the same requests for
  every column and get the same response after the same calls, so the same submitted
  batch and the same reported count.
\<close>

theorem POST_depends_on_membership:
  assumes "set (extractedProjectIDs p1) = set (extractedProjectIDs p2)"
    and "googleSpreadSheetID p1 = googleSpreadSheetID p2"
    and "sheetName p1 = sheetName p2"
  shows "buildUpdateRequests sid (extractedProjectIDs p1) V =
           buildUpdateRequests sid (extractedProjectIDs p2) V \<and>
         POST R (Inr p1) = POST R (Inr p2)"
proof
  show "buildUpdateRequests sid (extractedProjectIDs p1) V =
      buildUpdateRequests sid (extractedProjectIDs p2) V"
    by (rule buildUpdateRequests_cong [OF assms(1)])
  have "handler R p1 = handler R p2"
    unfolding handler_def matching_cong [OF assms] assms(2) assms(3) by (rule refl)
  then show "POST R (Inr p1) = POST R (Inr p2)"
    by (simp add: POST_def)
qed

theorem POST_depends_on_membership_witness:
  "buildUpdateRequests 7 [js ''DEF'', js ''ABC'', js ''DEF''] columnA =
     buildUpdateRequests 7 [js ''ABC'', js ''DEF''] columnA \<and>
   POST storeA (Inr (payloadA [js ''DEF'', js ''ABC'', js ''DEF''])) =
     POST storeA (Inr (payloadA [js ''ABC'', js ''DEF'']))"
proof -
  have "set (extractedProjectIDs (payloadA [js ''DEF'', js ''ABC'', js ''DEF''])) =
      set (extractedProjectIDs (payloadA [js ''ABC'', js ''DEF'']))"
    by (auto simp: payloadA_def)
  from POST_depends_on_membership [OF this, of 7 columnA storeA] show ?thesis
    by (simp add: payloadA_def)
qed

end
